theory Spec2Isabelle
  imports Main "HOL-Library.AList"
begin

section \<open>duet-kit: the patch engine of \<^verbatim>\<open>createDuet\<close> (src/duet.ts)\<close>

text \<open>
  The development embeds \<^verbatim>\<open>createDuet\<close> of src/duet.ts: the store operations
  \<^verbatim>\<open>set\<close>, \<^verbatim>\<open>setMany\<close>, \<^verbatim>\<open>reset\<close>, and the bridge operations \<^verbatim>\<open>applyPatch\<close>,
  \<^verbatim>\<open>applyJSON\<close>, \<^verbatim>\<open>history\<close>, \<^verbatim>\<open>clearHistory\<close>, together with
  \<^verbatim>\<open>DuetSchema.getDefaults\<close> and \<^verbatim>\<open>DuetSchema.validate\<close> of the schema class.

  JavaScript values are split in two layers, as the engine uses them:
  \<^item> the content of a value is a tree \<open>jv\<close> (JSON data, \<^verbatim>\<open>undefined\<close>, and the values
    every object inherits from \<^verbatim>\<open>Object.prototype\<close>);
  \<^item> every top-level field value lives in a heap cell, and the store's \<^verbatim>\<open>data\<close>
    object, the working copy \<^verbatim>\<open>currentData\<close> and the schema's \<^verbatim>\<open>default\<close> slots
    hold addresses of cells. Copying an object with \<^verbatim>\<open>{ ...data }\<close> copies the
    addresses, so two of them can name the same cell, and \<^verbatim>\<open>delete target[k]\<close>
    changes the cell for all of them.

  Names follow the source. Where a source name is taken in HOL it gets a suffix:
  \<^verbatim>\<open>set\<close> is \<open>set_field\<close>, the \<^verbatim>\<open>id\<close> of a history entry is \<open>id_str\<close>, the \<^verbatim>\<open>default\<close> of
  a field is \<open>default_ref\<close>, and the schema's \<^verbatim>\<open>fields\<close> are the argument \<open>flds\<close>.
\<close>

subsection \<open>Values\<close>

datatype jv =
    JUndef
  | JNull
  | JBool bool
  | JNum int
  | JStr string
  | JArr "jv list"
  | JObj "(string \<times> jv) list"
  | JBuiltin string

text \<open>
  Modelling decisions for values:
  \<^item> numbers are integers (the claims never compute with them);
  \<^item> an object is an association list of its own enumerable properties, in insertion
    order;
  \<^item> \<^verbatim>\<open>k in target\<close> and \<^verbatim>\<open>target[k]\<close> follow the prototype chain: every object, array
    and primitive inherits the names of \<^verbatim>\<open>Object.prototype\<close> (\<open>inheritedNames\<close>), and
    \<open>JBuiltin k\<close> is the value read under the inherited name \<open>k\<close>: a built-in function,
    or a prototype object under \<^verbatim>\<open>__proto__\<close>;
  \<^item> \<open>JUndef\<close> inside an array stands for a hole;
  \<^item> the module is an ES module, hence strict-mode code: assigning a property of a
    primitive, and deleting an index or the \<^verbatim>\<open>length\<close> of a string or of an array,
    throw \<^verbatim>\<open>TypeError\<close>.

  Outside the model: the own properties of the built-in values themselves (a
  \<open>JBuiltin\<close> behaves as an object with the inherited names only, and writing to it or
  deleting from it changes nothing the store can see), the method names of
  \<^verbatim>\<open>Array.prototype\<close>, \<^verbatim>\<open>String.prototype\<close>, \<^verbatim>\<open>Number.prototype\<close> and
  \<^verbatim>\<open>Boolean.prototype\<close>, and the change of an object's prototype by an assignment to
  \<^verbatim>\<open>__proto__\<close>.
\<close>

datatype fault = TypeError | SyntaxError | RangeError

text \<open>The property names of \<^verbatim>\<open>Object.prototype\<close>.\<close>

definition inheritedNames :: "string list" where
  "inheritedNames =
     [''constructor'', ''__defineGetter__'', ''__defineSetter__'', ''hasOwnProperty'',
      ''__lookupGetter__'', ''__lookupSetter__'', ''isPrototypeOf'',
      ''propertyIsEnumerable'', ''toString'', ''valueOf'', ''__proto__'',
      ''toLocaleString'']"

definition inherited :: "string \<Rightarrow> bool" where
  "inherited k = (k \<in> set inheritedNames)"

text \<open>
  \<^verbatim>\<open>obj[k] = v\<close> on a plain object, as a list of its own properties. The name
  \<^verbatim>\<open>__proto__\<close> is an accessor of \<^verbatim>\<open>Object.prototype\<close>: unless the object has an own
  property of that name, the assignment goes to the setter and adds no property.
\<close>

definition assignKey :: "string \<Rightarrow> 'a \<Rightarrow> (string \<times> 'a) list \<Rightarrow> (string \<times> 'a) list" where
  "assignKey k v al =
     (if k = ''__proto__'' \<and> map_of al k = None then al else AList.update k v al)"

subsection \<open>\<^verbatim>\<open>String(n)\<close> and array indices\<close>

definition digit_char :: "nat \<Rightarrow> char" where
  "digit_char d = ''0123456789'' ! d"

fun string_of_nat :: "nat \<Rightarrow> string" where
  "string_of_nat n =
     (if n < 10 then [digit_char n]
      else string_of_nat (n div 10) @ [digit_char (n mod 10)])"

declare string_of_nat.simps [simp del]

definition is_digit :: "char \<Rightarrow> bool" where
  "is_digit c = (48 \<le> (of_char c :: nat) \<and> (of_char c :: nat) \<le> 57)"

definition nat_of_digits :: "string \<Rightarrow> nat" where
  "nat_of_digits s = foldl (\<lambda>a c. 10 * a + ((of_char c :: nat) - 48)) 0 s"

text \<open>
  A property key is an array index when it is the canonical decimal form of a number
  below \<open>2\<^sup>3\<^sup>2 - 1\<close>.
\<close>

definition index_of_key :: "string \<Rightarrow> nat option" where
  "index_of_key k =
     (if k \<noteq> [] \<and> list_all is_digit k \<and> string_of_nat (nat_of_digits k) = k
         \<and> nat_of_digits k < 4294967295
      then Some (nat_of_digits k) else None)"

subsection \<open>Property access: \<^verbatim>\<open>target[k]\<close>, \<^verbatim>\<open>k in target\<close>, \<^verbatim>\<open>target[k] = v\<close>, \<^verbatim>\<open>delete target[k]\<close>\<close>

definition lookup_prop :: "(string \<times> jv) list \<Rightarrow> string \<Rightarrow> jv" where
  "lookup_prop ps k = (case map_of ps k of None \<Rightarrow> JUndef | Some v \<Rightarrow> v)"

text \<open>What a name that is not an own property reads as.\<close>

definition inheritedValue :: "string \<Rightarrow> jv" where
  "inheritedValue k = (if inherited k then JBuiltin k else JUndef)"

text \<open>\<^verbatim>\<open>obj[k]\<close> on an object: the own property, else the inherited one.\<close>

definition readProp :: "(string \<times> jv) list \<Rightarrow> string \<Rightarrow> jv" where
  "readProp ps k = (case map_of ps k of None \<Rightarrow> inheritedValue k | Some v \<Rightarrow> v)"

definition elem_at :: "jv list \<Rightarrow> string \<Rightarrow> jv" where
  "elem_at xs k =
     (case index_of_key k of
        None \<Rightarrow> JUndef
      | Some i \<Rightarrow> (if i < length xs then xs ! i else JUndef))"

definition char_at :: "string \<Rightarrow> string \<Rightarrow> jv" where
  "char_at s k =
     (case index_of_key k of
        None \<Rightarrow> JUndef
      | Some i \<Rightarrow> (if i < length s then JStr [s ! i] else JUndef))"

text \<open>\<^verbatim>\<open>target[k]\<close>: reading a property of \<^verbatim>\<open>undefined\<close> or \<^verbatim>\<open>null\<close> throws.\<close>

fun getProp :: "jv \<Rightarrow> string \<Rightarrow> fault + jv" where
  "getProp JUndef k = Inl TypeError"
| "getProp JNull k = Inl TypeError"
| "getProp (JObj ps) k = Inr (readProp ps k)"
| "getProp (JArr xs) k =
     Inr (if k = ''length'' then JNum (int (length xs))
          else if elem_at xs k \<noteq> JUndef then elem_at xs k
          else inheritedValue k)"
| "getProp (JStr s) k =
     Inr (if k = ''length'' then JNum (int (length s))
          else if char_at s k \<noteq> JUndef then char_at s k
          else inheritedValue k)"
| "getProp (JBool b) k = Inr (inheritedValue k)"
| "getProp (JNum n) k = Inr (inheritedValue k)"
| "getProp (JBuiltin n) k = Inr (inheritedValue k)"

text \<open>\<^verbatim>\<open>k in target\<close>: the operator throws on every value that is not an object.\<close>

fun hasProp :: "string \<Rightarrow> jv \<Rightarrow> fault + bool" where
  "hasProp k (JObj ps) = Inr (map_of ps k \<noteq> None \<or> inherited k)"
| "hasProp k (JArr xs) = Inr (elem_at xs k \<noteq> JUndef \<or> k = ''length'' \<or> inherited k)"
| "hasProp k (JBuiltin n) = Inr (inherited k)"
| "hasProp k v = Inl TypeError"

text \<open>Writing index \<open>i\<close> of an array extends it with holes when \<open>i\<close> is past the end.\<close>

definition set_elem :: "jv list \<Rightarrow> nat \<Rightarrow> jv \<Rightarrow> jv list" where
  "set_elem xs i v =
     (if i < length xs then xs[i := v]
      else xs @ replicate (i - length xs) JUndef @ [v])"

text \<open>
  \<^verbatim>\<open>arr.length = v\<close>: the array is cut or padded with holes when \<open>v\<close> converts to a
  length, and \<^verbatim>\<open>RangeError\<close> is thrown otherwise. Of the strings only the canonical
  decimal numerals and the empty string are converted, and of the arrays only the empty
  one; the other numerals a string can spell are outside the model.
\<close>

definition toLength :: "jv \<Rightarrow> nat option" where
  "toLength v =
     (case v of
        JNum n \<Rightarrow> (if 0 \<le> n \<and> n < 4294967296 then Some (nat n) else None)
      | JNull \<Rightarrow> Some 0
      | JBool b \<Rightarrow> Some (if b then 1 else 0)
      | JStr s \<Rightarrow> (if s = [] then Some 0 else index_of_key s)
      | JArr xs \<Rightarrow> (if xs = [] then Some 0 else None)
      | _ \<Rightarrow> None)"

definition set_length :: "jv list \<Rightarrow> jv \<Rightarrow> fault + jv" where
  "set_length xs v =
     (case toLength v of
        None \<Rightarrow> Inl RangeError
      | Some n \<Rightarrow> Inr (JArr (take n xs @ replicate (n - length xs) JUndef)))"

text \<open>
  \<^verbatim>\<open>target[k] = v\<close>; the result is the target after the assignment. A key of an
  array that is neither an index nor \<^verbatim>\<open>length\<close> becomes a property that no JSON view of
  the array shows.
\<close>

fun setProp :: "jv \<Rightarrow> string \<Rightarrow> jv \<Rightarrow> fault + jv" where
  "setProp (JObj ps) k v = Inr (JObj (assignKey k v ps))"
| "setProp (JArr xs) k v =
     (if k = ''length'' then set_length xs v
      else Inr (case index_of_key k of
                  None \<Rightarrow> JArr xs
                | Some i \<Rightarrow> JArr (set_elem xs i v)))"
| "setProp (JBuiltin n) k v = Inr (JBuiltin n)"
| "setProp t k v = Inl TypeError"

text \<open>
  \<^verbatim>\<open>delete target[k]\<close>; the result is the target after the deletion. Only own
  properties are deleted.
\<close>

fun deleteProp :: "jv \<Rightarrow> string \<Rightarrow> fault + jv" where
  "deleteProp JUndef k = Inl TypeError"
| "deleteProp JNull k = Inl TypeError"
| "deleteProp (JObj ps) k = Inr (JObj (AList.delete k ps))"
| "deleteProp (JArr xs) k =
     (if k = ''length'' then Inl TypeError
      else Inr (case index_of_key k of
                  None \<Rightarrow> JArr xs
                | Some i \<Rightarrow> (if i < length xs then JArr (xs[i := JUndef]) else JArr xs)))"
| "deleteProp (JStr s) k =
     (if k = ''length'' \<or> char_at s k \<noteq> JUndef then Inl TypeError else Inr (JStr s))"
| "deleteProp (JBool b) k = Inr (JBool b)"
| "deleteProp (JNum n) k = Inr (JNum n)"
| "deleteProp (JBuiltin n) k = Inr (JBuiltin n)"

subsection \<open>\<^verbatim>\<open>JSON.parse(JSON.stringify(v))\<close>\<close>

text \<open>
  \<^verbatim>\<open>JSON.stringify\<close> drops the properties whose value is \<^verbatim>\<open>undefined\<close> or a function
  and writes \<^verbatim>\<open>null\<close> for such an array element; \<^verbatim>\<open>JSON.stringify\<close> of \<^verbatim>\<open>undefined\<close> or
  of a function is \<^verbatim>\<open>undefined\<close>, which \<^verbatim>\<open>JSON.parse\<close> rejects with a \<^verbatim>\<open>SyntaxError\<close>.
  \<^verbatim>\<open>Object.prototype\<close>, the one built-in value that is not a function, has no enumerable
  property and is written as the empty object.
\<close>

definition unwritten :: "jv \<Rightarrow> bool" where
  "unwritten v =
     (case v of
        JUndef \<Rightarrow> True
      | JBuiltin n \<Rightarrow> n \<noteq> ''__proto__''
      | _ \<Rightarrow> False)"

fun roundtrip :: "jv \<Rightarrow> jv"
  and roundtrip_elems :: "jv list \<Rightarrow> jv list"
  and roundtrip_props :: "(string \<times> jv) list \<Rightarrow> (string \<times> jv) list" where
  "roundtrip (JArr xs) = JArr (roundtrip_elems xs)"
| "roundtrip (JObj ps) = JObj (roundtrip_props ps)"
| "roundtrip (JBuiltin n) = JObj []"
| "roundtrip JUndef = JUndef"
| "roundtrip JNull = JNull"
| "roundtrip (JBool b) = JBool b"
| "roundtrip (JNum n) = JNum n"
| "roundtrip (JStr s) = JStr s"
| "roundtrip_elems [] = []"
| "roundtrip_elems (x # xs) =
     (if unwritten x then JNull else roundtrip x) # roundtrip_elems xs"
| "roundtrip_props [] = []"
| "roundtrip_props (p # ps) =
     (if unwritten (snd p) then roundtrip_props ps
      else (fst p, roundtrip (snd p)) # roundtrip_props ps)"

definition cloneJSON :: "jv \<Rightarrow> fault + jv" where
  "cloneJSON v = (if unwritten v then Inl SyntaxError else Inr (roundtrip v))"

subsection \<open>Paths\<close>

text \<open>
  \<^verbatim>\<open>op.path.replace(/^\//, '').split('/')\<close>: one leading slash is dropped, the rest is
  split at every slash. \<^verbatim>\<open>split\<close> always returns at least one segment, so the result
  is the pair of \<^verbatim>\<open>pathParts[0]\<close> and the remaining segments.
\<close>

fun split_slash :: "string \<Rightarrow> string \<times> string list" where
  "split_slash [] = ([], [])"
| "split_slash (c # cs) =
     (case split_slash cs of
        (seg, segs) \<Rightarrow> (if c = CHR ''/'' then ([], seg # segs) else (c # seg, segs)))"

fun strip_slash :: "string \<Rightarrow> string" where
  "strip_slash [] = []"
| "strip_slash (c # cs) = (if c = CHR ''/'' then cs else c # cs)"

definition pathParts :: "string \<Rightarrow> string \<times> string list" where
  "pathParts p = split_slash (strip_slash p)"

subsection \<open>Walking a nested path\<close>

text \<open>
  A walk reads a child with \<^verbatim>\<open>target = target[k]\<close> and later changes it in place.
  On trees the changed child is put back into its parent when it is an own property
  of the parent (one that was there, or one the walk created). A child read from a
  primitive is a fresh value, and an inherited child belongs to the prototype: in both
  cases the parent stays as it is.
\<close>

fun putChild :: "jv \<Rightarrow> string \<Rightarrow> jv \<Rightarrow> jv" where
  "putChild (JObj ps) k c =
     (if map_of ps k = None \<and> inherited k then JObj ps
      else JObj (AList.update k c ps))"
| "putChild (JArr xs) k c =
     (case index_of_key k of None \<Rightarrow> JArr xs | Some i \<Rightarrow> JArr (set_elem xs i c))"
| "putChild t k c = t"

text \<open>
  The nested branch of \<^verbatim>\<open>remove\<close> (duet.ts, lines 138 to 142), on the segments after
  the root field:
  \<^verbatim>\<open>
  for (let i = 1; i < pathParts.length - 1; i++) {
    target = target[pathParts[i]] as Record<string, unknown>;
  }
  delete target[pathParts[pathParts.length - 1]];
  \<close>
\<close>

fun removeAt :: "string list \<Rightarrow> jv \<Rightarrow> fault + jv" where
  "removeAt [] t = Inr t"
| "removeAt [k] t = deleteProp t k"
| "removeAt (k # ks) t =
     (case getProp t k of
        Inl e \<Rightarrow> Inl e
      | Inr c \<Rightarrow>
          (case removeAt ks c of
             Inl e \<Rightarrow> Inl e
           | Inr c' \<Rightarrow> Inr (putChild t k c')))"

text \<open>
  The nested branch of \<^verbatim>\<open>replace\<close>/\<^verbatim>\<open>add\<close> (duet.ts, lines 161 to 168):
  \<^verbatim>\<open>
  for (let i = 1; i < pathParts.length - 1; i++) {
    if (!(pathParts[i] in target)) { target[pathParts[i]] = {}; }
    target = target[pathParts[i]] as Record<string, unknown>;
  }
  target[pathParts[pathParts.length - 1]] = op.value;
  \<close>
\<close>

fun assignAt :: "string list \<Rightarrow> jv \<Rightarrow> jv \<Rightarrow> fault + jv" where
  "assignAt [] v t = Inr t"
| "assignAt [k] v t = setProp t k v"
| "assignAt (k # ks) v t =
     (case hasProp k t of
        Inl e \<Rightarrow> Inl e
      | Inr present \<Rightarrow>
          (case (if present then getProp t k else Inr (JObj [])) of
             Inl e \<Rightarrow> Inl e
           | Inr c \<Rightarrow>
               (case assignAt ks v c of
                  Inl e \<Rightarrow> Inl e
                | Inr c' \<Rightarrow> Inr (putChild t k c'))))"

subsection \<open>Schema (\<^verbatim>\<open>DuetSchema\<close>)\<close>

type_synonym addr = nat

text \<open>
  A field definition: \<open>safeParse\<close> is \<^verbatim>\<open>schema.safeParse\<close> of the Zod schema (\<open>Inl\<close> the
  message of the first issue, \<open>Inr\<close> the parsed data, a fresh value), \<open>default_ref\<close> the
  cell of the \<^verbatim>\<open>default\<close> value. The fields are an association list with distinct
  names, in declaration order: the own properties of the object literal the caller
  passes to \<^verbatim>\<open>createDuet\<close>.
\<close>

record FieldDef =
  safeParse :: "jv \<Rightarrow> string + jv"
  label :: string
  default_ref :: addr

type_synonym SchemaFields = "(string \<times> FieldDef) list"

text \<open>
  \<^verbatim>\<open>key in schema.fields\<close>: the registered names, and the names the object inherits.
\<close>

definition inFields :: "SchemaFields \<Rightarrow> string \<Rightarrow> bool" where
  "inFields flds k = (map_of flds k \<noteq> None \<or> inherited k)"

text \<open>
  \<^verbatim>\<open>getDefaults\<close> copies each field's \<^verbatim>\<open>default\<close>, for an object the reference, with
  \<^verbatim>\<open>defaults[key] = field.default\<close>; a field named \<^verbatim>\<open>__proto__\<close> gets no property that way.
\<close>

definition getDefaults :: "SchemaFields \<Rightarrow> (string \<times> addr) list" where
  "getDefaults flds =
     map (\<lambda>p. (fst p, default_ref (snd p))) (filter (\<lambda>p. fst p \<noteq> ''__proto__'') flds)"

text \<open>
  \<^verbatim>\<open>validate\<close>: \<^verbatim>\<open>this.fields[field].schema.safeParse(value)\<close> throws when the name is
  not registered: \<^verbatim>\<open>this.fields[field]\<close> is \<^verbatim>\<open>undefined\<close> then, or a built-in value
  without a \<^verbatim>\<open>schema\<close>.
\<close>

definition validate :: "SchemaFields \<Rightarrow> string \<Rightarrow> jv \<Rightarrow> fault + (string + jv)" where
  "validate flds field v =
     (case map_of flds field of
        None \<Rightarrow> Inl TypeError
      | Some f \<Rightarrow> Inr (safeParse f v))"

subsection \<open>Store state\<close>

datatype EditResult = Success nat | Failure string

datatype Source = User | LLM | System

record HistoryEntry =
  id_str :: string
  timestamp :: nat
  patch :: "jv list"
  source :: Source
  result :: EditResult

text \<open>
  Everything \<^verbatim>\<open>createDuet\<close> keeps between calls: the heap of field values, the
  store's \<^verbatim>\<open>data\<close> object, and the closure variables \<^verbatim>\<open>patchHistory\<close> and
  \<^verbatim>\<open>historyId\<close>.
\<close>

record DuetStore =
  heap :: "jv list"
  data :: "(string \<times> addr) list"
  patchHistory :: "HistoryEntry list"
  historyId :: nat

definition deref :: "jv list \<Rightarrow> addr \<Rightarrow> jv" where
  "deref h a = (if a < length h then h ! a else JUndef)"

text \<open>
  \<^verbatim>\<open>obj[k]\<close> for an object of references: when the key is missing, the inherited value
  or \<^verbatim>\<open>undefined\<close>.
\<close>

definition fieldValue :: "jv list \<Rightarrow> (string \<times> addr) list \<Rightarrow> string \<Rightarrow> jv" where
  "fieldValue h d k = (case map_of d k of None \<Rightarrow> inheritedValue k | Some a \<Rightarrow> deref h a)"

text \<open>What \<^verbatim>\<open>getState().data\<close> shows: every field with the content of its cell.\<close>

definition current :: "DuetStore \<Rightarrow> (string \<times> jv) list" where
  "current st = map (\<lambda>p. (fst p, deref (heap st) (snd p))) (data st)"

text \<open>
  \<^verbatim>\<open>createDuet\<close>: the defaults already live in the heap \<open>h0\<close> (the caller built them
  with \<^verbatim>\<open>field(...)\<close>), and \<^verbatim>\<open>initialData = schema.getDefaults()\<close>.
\<close>

definition createDuet :: "SchemaFields \<Rightarrow> jv list \<Rightarrow> DuetStore" where
  "createDuet flds h0 =
     \<lparr>heap = h0, data = getDefaults flds, patchHistory = [], historyId = 0\<rparr>"

subsection \<open>\<^verbatim>\<open>set\<close>, \<^verbatim>\<open>setMany\<close>, \<^verbatim>\<open>reset\<close>\<close>

text \<open>
  \<^verbatim>\<open>data: { ...state.data, ...validated }\<close>: each validated value is a fresh value in
  a new cell.
\<close>

fun commit :: "(string \<times> jv) list \<Rightarrow> DuetStore \<Rightarrow> DuetStore" where
  "commit [] st = st"
| "commit (p # ps) st =
     commit ps (st\<lparr>heap := heap st @ [snd p],
                   data := AList.update (fst p) (length (heap st)) (data st)\<rparr>)"

definition set_field :: "SchemaFields \<Rightarrow> string \<Rightarrow> jv \<Rightarrow> DuetStore \<Rightarrow> fault + (bool \<times> DuetStore)" where
  "set_field flds field v st =
     (case validate flds field v of
        Inl e \<Rightarrow> Inl e
      | Inr (Inl msg) \<Rightarrow> Inr (False, st)
      | Inr (Inr d) \<Rightarrow> Inr (True, commit [(field, d)] st))"

text \<open>
  The loop of \<^verbatim>\<open>setMany\<close> over \<^verbatim>\<open>Object.entries(updates)\<close>: \<open>Inr None\<close> is the early
  \<^verbatim>\<open>return false\<close>, \<open>Inl\<close> an exception of \<^verbatim>\<open>schema.validate\<close>, which \<^verbatim>\<open>setMany\<close> does
  not catch. A key that \<^verbatim>\<open>schema.fields\<close> only inherits passes the guard, and
  \<^verbatim>\<open>validate\<close> throws on it. \<^verbatim>\<open>validated[key] = result.data\<close> adds a property, except
  for the key \<^verbatim>\<open>__proto__\<close>. The values are passed by content, \<^verbatim>\<open>safeParse\<close> only reads
  them.
\<close>

fun validateEntries ::
  "SchemaFields \<Rightarrow> (string \<times> jv) list \<Rightarrow> (string \<times> jv) list
     \<Rightarrow> fault + (string \<times> jv) list option" where
  "validateEntries flds [] validated = Inr (Some validated)"
| "validateEntries flds (u # us) validated =
     (if inFields flds (fst u) then
        (case validate flds (fst u) (snd u) of
           Inl e \<Rightarrow> Inl e
         | Inr (Inl msg) \<Rightarrow> Inr None
         | Inr (Inr d) \<Rightarrow>
             validateEntries flds us
               (if fst u = ''__proto__'' then validated else validated @ [(fst u, d)]))
      else validateEntries flds us validated)"

text \<open>\<^verbatim>\<open>setMany\<close>: \<open>Inl\<close> is an exception that leaves the function; the store is as it was.\<close>

definition setMany ::
  "SchemaFields \<Rightarrow> (string \<times> jv) list \<Rightarrow> DuetStore \<Rightarrow> fault + (bool \<times> DuetStore)" where
  "setMany flds updates st =
     (case validateEntries flds updates [] of
        Inl e \<Rightarrow> Inl e
      | Inr None \<Rightarrow> Inr (False, st)
      | Inr (Some validated) \<Rightarrow> Inr (True, commit validated st))"

definition reset :: "SchemaFields \<Rightarrow> DuetStore \<Rightarrow> DuetStore" where
  "reset flds st = st\<lparr>data := getDefaults flds\<rparr>"

subsection \<open>The bridge: \<^verbatim>\<open>applyPatch\<close>\<close>

text \<open>
  An operation arrives as a JavaScript value: \<^verbatim>\<open>applyJSON\<close> casts whatever
  \<^verbatim>\<open>JSON.parse\<close> returned to \<^verbatim>\<open>JsonPatchOp[]\<close>. \<^verbatim>\<open>op.path.replace(...)\<close> throws
  unless \<^verbatim>\<open>op.path\<close> is a string.
\<close>

definition opPath :: "jv \<Rightarrow> fault + string" where
  "opPath op =
     (case getProp op ''path'' of
        Inl e \<Rightarrow> Inl e
      | Inr p \<Rightarrow> (case p of JStr s \<Rightarrow> Inr s | _ \<Rightarrow> Inl TypeError))"

text \<open>\<^verbatim>\<open>op.op\<close> and \<^verbatim>\<open>op.value\<close>, read once \<^verbatim>\<open>op.path\<close> has been read.\<close>

definition opField :: "jv \<Rightarrow> string \<Rightarrow> jv" where
  "opField op k = (case getProp op k of Inl e \<Rightarrow> JUndef | Inr v \<Rightarrow> v)"

text \<open>
  How the body of the loop ends for one operation: an exception leaves the function,
  an early \<^verbatim>\<open>return\<close> carries the error message, or the loop goes on with the
  working copy. The heap is returned in every case: \<^verbatim>\<open>delete\<close> has changed it in
  place.
\<close>

datatype loop_end = Thrown fault | Rejected string | Done "(string \<times> addr) list"

definition storeField :: "jv list \<Rightarrow> (string \<times> addr) list \<Rightarrow> string \<Rightarrow> jv \<Rightarrow> jv list" where
  "storeField h d k v = (case map_of d k of None \<Rightarrow> h | Some a \<Rightarrow> h[a := v])"

text \<open>
  The body of \<^verbatim>\<open>for (const op of patch)\<close> (duet.ts, lines 124 to 181). In the
  \<^verbatim>\<open>remove\<close> branch \<^verbatim>\<open>getDefaults()\<close> has the root field when it is registered (lemma
  \<open>getDefaults_lookup\<close> below); for a root name that \<^verbatim>\<open>schema.fields\<close> only inherits,
  \<^verbatim>\<open>getDefaults()[rootField]\<close> is the inherited value, which goes into the working copy.
\<close>

definition applyOp ::
  "SchemaFields \<Rightarrow> jv \<Rightarrow> jv list \<Rightarrow> (string \<times> addr) list \<Rightarrow> jv list \<times> loop_end" where
  "applyOp flds op h currentData =
     (case opPath op of
        Inl e \<Rightarrow> (h, Thrown e)
      | Inr path \<Rightarrow>
          (let rootField = fst (pathParts path);
               nested = snd (pathParts path)
           in
           if \<not> inFields flds rootField then
             (h, Rejected (''Unknown field: '' @ rootField))
           else if opField op ''op'' = JStr ''remove'' then
             (if nested = [] then
                (case map_of (getDefaults flds) rootField of
                   None \<Rightarrow>
                     (h @ [inheritedValue rootField],
                      Done (assignKey rootField (length h) currentData))
                 | Some a \<Rightarrow> (h, Done (assignKey rootField a currentData)))
              else
                (case removeAt nested (fieldValue h currentData rootField) of
                   Inl e \<Rightarrow> (h, Thrown e)
                 | Inr t \<Rightarrow> (storeField h currentData rootField t, Done currentData)))
           else if opField op ''op'' = JStr ''replace'' \<or> opField op ''op'' = JStr ''add'' then
             (if nested = [] then
                (case validate flds rootField (opField op ''value'') of
                   Inl e \<Rightarrow> (h, Thrown e)
                 | Inr (Inl msg) \<Rightarrow>
                     (h, Rejected (''Invalid value for '' @ rootField @ '': '' @ msg))
                 | Inr (Inr d) \<Rightarrow>
                     (h @ [d], Done (assignKey rootField (length h) currentData)))
              else
                (case cloneJSON (fieldValue h currentData rootField) of
                   Inl e \<Rightarrow> (h, Thrown e)
                 | Inr newValue \<Rightarrow>
                     (case assignAt nested (opField op ''value'') newValue of
                        Inl e \<Rightarrow> (h, Thrown e)
                      | Inr assigned \<Rightarrow>
                          (case validate flds rootField assigned of
                             Inl e \<Rightarrow> (h, Thrown e)
                           | Inr (Inl msg) \<Rightarrow>
                               (h, Rejected (''Invalid value for '' @ path @ '': '' @ msg))
                           | Inr (Inr d) \<Rightarrow>
                               (h @ [d],
                                Done (assignKey rootField (length h) currentData))))))
           else (h, Done currentData)))"

fun patchLoop ::
  "SchemaFields \<Rightarrow> jv list \<Rightarrow> jv list \<Rightarrow> (string \<times> addr) list \<Rightarrow> jv list \<times> loop_end" where
  "patchLoop flds [] h currentData = (h, Done currentData)"
| "patchLoop flds (op # ops) h currentData =
     (case applyOp flds op h currentData of
        (h', Done currentData') \<Rightarrow> patchLoop flds ops h' currentData'
      | (h', Thrown e) \<Rightarrow> (h', Thrown e)
      | (h', Rejected msg) \<Rightarrow> (h', Rejected msg))"

text \<open>
  \<^verbatim>\<open>patchHistory.push({ id: String(++historyId), timestamp: Date.now(), patch, source, result })\<close>;
  \<open>now\<close> is what \<^verbatim>\<open>Date.now()\<close> returns.
\<close>

definition pushHistory :: "nat \<Rightarrow> jv list \<Rightarrow> Source \<Rightarrow> EditResult \<Rightarrow> DuetStore \<Rightarrow> DuetStore" where
  "pushHistory now ops src res st =
     st\<lparr>historyId := historyId st + 1,
        patchHistory := patchHistory st @
          [\<lparr>id_str = string_of_nat (historyId st + 1), timestamp = now,
            patch = ops, source = src, result = res\<rparr>]\<rparr>"

text \<open>
  \<^verbatim>\<open>applyPatch\<close> (duet.ts, lines 120 to 193). \<open>Inl\<close> is an exception that leaves the
  function, from the loop or from \<^verbatim>\<open>setMany\<close>. \<^verbatim>\<open>currentData\<close> starts as
  \<^verbatim>\<open>{ ...useStore.getState().data }\<close>, a copy of the references.
\<close>

definition applyPatch ::
  "SchemaFields \<Rightarrow> nat \<Rightarrow> jv list \<Rightarrow> Source \<Rightarrow> DuetStore \<Rightarrow> (fault + EditResult) \<times> DuetStore" where
  "applyPatch flds now ops src st =
     (case patchLoop flds ops (heap st) (data st) of
        (h, Thrown e) \<Rightarrow> (Inl e, st\<lparr>heap := h\<rparr>)
      | (h, Rejected msg) \<Rightarrow>
          (Inr (Failure msg), pushHistory now ops src (Failure msg) (st\<lparr>heap := h\<rparr>))
      | (h, Done currentData) \<Rightarrow>
          (case setMany flds (map (\<lambda>p. (fst p, deref h (snd p))) currentData) (st\<lparr>heap := h\<rparr>) of
             Inl e \<Rightarrow> (Inl e, st\<lparr>heap := h\<rparr>)
           | Inr (False, st') \<Rightarrow>
               (Inr (Failure ''Failed to commit changes to store''),
                pushHistory now ops src (Failure ''Failed to commit changes to store'') st')
           | Inr (True, st') \<Rightarrow>
               (Inr (Success (length ops)),
                pushHistory now ops src (Success (length ops)) st')))"

subsection \<open>\<^verbatim>\<open>applyJSON\<close>, \<^verbatim>\<open>history\<close>, \<^verbatim>\<open>clearHistory\<close>\<close>

text \<open>
  \<^verbatim>\<open>applyJSON\<close> (duet.ts, lines 195 to 211). The runtime's \<^verbatim>\<open>JSON.parse\<close> is the
  parameter \<open>JSON_parse\<close> (\<open>Inl\<close> the message of its \<^verbatim>\<open>SyntaxError\<close>), and \<open>message\<close>
  gives the \<^verbatim>\<open>message\<close> of the other exceptions. The \<^verbatim>\<open>catch\<close> clause covers the
  whole body, the calls of \<^verbatim>\<open>applyPatch\<close> included.
\<close>

definition caught :: "(fault \<Rightarrow> string) \<Rightarrow> (fault + EditResult) \<times> DuetStore \<Rightarrow> EditResult \<times> DuetStore" where
  "caught message r =
     (case fst r of
        Inl e \<Rightarrow> (Failure (''JSON parse error: '' @ message e), snd r)
      | Inr res \<Rightarrow> (res, snd r))"

definition applyJSON ::
  "(string \<Rightarrow> string + jv) \<Rightarrow> (fault \<Rightarrow> string) \<Rightarrow> SchemaFields \<Rightarrow> nat \<Rightarrow> string \<Rightarrow> Source
     \<Rightarrow> DuetStore \<Rightarrow> EditResult \<times> DuetStore" where
  "applyJSON JSON_parse message flds now json src st =
     (case JSON_parse json of
        Inl m \<Rightarrow> (Failure (''JSON parse error: '' @ m), st)
      | Inr parsed \<Rightarrow>
          (case parsed of
             JArr ops \<Rightarrow> caught message (applyPatch flds now ops src st)
           | _ \<Rightarrow>
               (case getProp parsed ''patch'' of
                  Inl e \<Rightarrow> (Failure (''JSON parse error: '' @ message e), st)
                | Inr (JArr ops) \<Rightarrow> caught message (applyPatch flds now ops src st)
                | Inr _ \<Rightarrow>
                    (Failure ''Expected JSON Patch array or { patch: [...] } format'', st))))"

definition history :: "DuetStore \<Rightarrow> HistoryEntry list" where
  "history st = patchHistory st"

definition clearHistory :: "DuetStore \<Rightarrow> DuetStore" where
  "clearHistory st = st\<lparr>patchHistory := [], historyId := 0\<rparr>"

subsection \<open>Example schemas\<close>

text \<open>
  Zod schemas as parse functions, for the concrete stores below. \<open>Inl\<close> carries the
  code of the first issue in place of Zod's message text. An object schema strips
  unknown keys and builds a new object in the order of its shape; the shapes below
  have no inherited name, so that reading the own properties is reading \<^verbatim>\<open>data[key]\<close>.
\<close>

definition zString :: "jv \<Rightarrow> string + jv" where
  "zString v = (case v of JStr s \<Rightarrow> Inr (JStr s) | _ \<Rightarrow> Inl ''invalid_type'')"

definition zNumber :: "int \<Rightarrow> int \<Rightarrow> jv \<Rightarrow> string + jv" where
  "zNumber lo hi v =
     (case v of
        JNum n \<Rightarrow>
          (if n < lo then Inl ''too_small''
           else if hi < n then Inl ''too_big''
           else Inr (JNum n))
      | _ \<Rightarrow> Inl ''invalid_type'')"

definition zEnum :: "string list \<Rightarrow> jv \<Rightarrow> string + jv" where
  "zEnum options v =
     (case v of
        JStr s \<Rightarrow> (if s \<in> set options then Inr (JStr s) else Inl ''invalid_enum_value'')
      | _ \<Rightarrow> Inl ''invalid_type'')"

definition zOptional :: "(jv \<Rightarrow> string + jv) \<Rightarrow> jv \<Rightarrow> string + jv" where
  "zOptional inner v = (if v = JUndef then Inr JUndef else inner v)"

fun zShape :: "(string \<times> (jv \<Rightarrow> string + jv)) list \<Rightarrow> (string \<times> jv) list \<Rightarrow> string + (string \<times> jv) list" where
  "zShape [] ps = Inr []"
| "zShape (kp # shape) ps =
     (case snd kp (lookup_prop ps (fst kp)) of
        Inl msg \<Rightarrow> Inl msg
      | Inr d \<Rightarrow>
          (case zShape shape ps of
             Inl msg \<Rightarrow> Inl msg
           | Inr ds \<Rightarrow>
               Inr (if d = JUndef \<and> map_of ps (fst kp) = None then ds
                    else (fst kp, d) # ds)))"

definition zObject :: "(string \<times> (jv \<Rightarrow> string + jv)) list \<Rightarrow> jv \<Rightarrow> string + jv" where
  "zObject shape v =
     (case v of
        JObj ps \<Rightarrow> (case zShape shape ps of Inl msg \<Rightarrow> Inl msg | Inr ds \<Rightarrow> Inr (JObj ds))
      | _ \<Rightarrow> Inl ''invalid_type'')"

text \<open>
  Two fields of the trip store of examples/src/schema.ts:
  \<^verbatim>\<open>
  days: field(z.number().min(1).max(365), 'Duration (days)', 7),
  accommodation: field(accommodationSchema, 'Accommodation',
                       { type: 'hotel', budgetPerNight: 150, stars: 3 }),
  \<close>
  where \<^verbatim>\<open>stars\<close> is optional in \<^verbatim>\<open>accommodationSchema\<close>. The defaults are the cells
  0 and 1 of the heap the store starts with.
\<close>

definition accommodationSchema :: "jv \<Rightarrow> string + jv" where
  "accommodationSchema =
     zObject [(''type'', zEnum [''hotel'', ''airbnb'', ''hostel'', ''resort'']),
              (''budgetPerNight'', zNumber 0 10000),
              (''stars'', zOptional (zNumber 1 5))]"

definition tripFields :: SchemaFields where
  "tripFields =
     [(''days'', \<lparr>safeParse = zNumber 1 365, label = ''Duration (days)'', default_ref = 0\<rparr>),
      (''accommodation'',
         \<lparr>safeParse = accommodationSchema, label = ''Accommodation'', default_ref = 1\<rparr>)]"

definition tripHeap :: "jv list" where
  "tripHeap =
     [JNum 7,
      JObj [(''type'', JStr ''hotel''), (''budgetPerNight'', JNum 150), (''stars'', JNum 3)]]"

definition tripStore :: DuetStore where
  "tripStore = createDuet tripFields tripHeap"

text \<open>
  The store of the test suite's \<^verbatim>\<open>nested fields\<close> block:
  \<^verbatim>\<open>
  contact: field(z.object({ name: z.string(), email: z.string(), phone: z.string() }),
                 'Contact', { name: '', email: '', phone: '' })
  \<close>
\<close>

definition contactFields :: SchemaFields where
  "contactFields =
     [(''contact'',
         \<lparr>safeParse = zObject [(''name'', zString), (''email'', zString), (''phone'', zString)],
          label = ''Contact'', default_ref = 0\<rparr>)]"

definition contactHeap :: "jv list" where
  "contactHeap = [JObj [(''name'', JStr []), (''email'', JStr []), (''phone'', JStr [])]]"

definition contactStore :: DuetStore where
  "contactStore = createDuet contactFields contactHeap"

text \<open>Operations as \<^verbatim>\<open>JsonPatchOp\<close> objects.\<close>

definition mkOp :: "string \<Rightarrow> string \<Rightarrow> jv \<Rightarrow> jv" where
  "mkOp kind path v = JObj [(''op'', JStr kind), (''path'', JStr path), (''value'', v)]"

definition mkRemove :: "string \<Rightarrow> jv" where
  "mkRemove path = JObj [(''op'', JStr ''remove''), (''path'', JStr path)]"

subsection \<open>Specification-side notions\<close>

text \<open>
  For \<^verbatim>\<open>setMany\<close>: an update is rejected when its key is registered and the field's
  schema refuses the value; \<open>accepted\<close> lists the parsed values of the registered
  keys, in the order of the updates.
\<close>

definition rejected_by :: "SchemaFields \<Rightarrow> string \<times> jv \<Rightarrow> bool" where
  "rejected_by flds u =
     (case map_of flds (fst u) of
        None \<Rightarrow> False
      | Some f \<Rightarrow> (case safeParse f (snd u) of Inl msg \<Rightarrow> True | Inr d \<Rightarrow> False))"

fun accepted :: "SchemaFields \<Rightarrow> (string \<times> jv) list \<Rightarrow> (string \<times> jv) list" where
  "accepted flds [] = []"
| "accepted flds (u # us) =
     (case map_of flds (fst u) of
        None \<Rightarrow> accepted flds us
      | Some f \<Rightarrow>
          (case safeParse f (snd u) of
             Inl msg \<Rightarrow> accepted flds us
           | Inr d \<Rightarrow> (fst u, d) # accepted flds us))"

definition registered :: "SchemaFields \<Rightarrow> string \<times> jv \<Rightarrow> bool" where
  "registered flds u = (map_of flds (fst u) \<noteq> None)"

text \<open>
  An update whose key is no field, yet passes the guard \<^verbatim>\<open>key in schema.fields\<close> because
  the fields object inherits the name.
\<close>

definition inheritedOnly :: "SchemaFields \<Rightarrow> string \<times> jv \<Rightarrow> bool" where
  "inheritedOnly flds u = (map_of flds (fst u) = None \<and> inherited (fst u))"

text \<open>An update that meets the prototype: such a key, or the key \<^verbatim>\<open>__proto__\<close>.\<close>

definition prototypeKey :: "SchemaFields \<Rightarrow> string \<times> jv \<Rightarrow> bool" where
  "prototypeKey flds u = (fst u = ''__proto__'' \<or> inheritedOnly flds u)"

text \<open>
  For nested writes: the value found by following a path through the own properties
  of objects, the paths that leave a given path at some segment, the paths without an
  inherited name, and the values in which every segment of a path that is present
  leads to an object.
\<close>

fun lookupPath :: "string list \<Rightarrow> jv \<Rightarrow> jv" where
  "lookupPath [] t = t"
| "lookupPath (k # ks) (JObj ps) = lookupPath ks (lookup_prop ps k)"
| "lookupPath (k # ks) t = JUndef"

fun diverge :: "string list \<Rightarrow> string list \<Rightarrow> bool" where
  "diverge (a # as) (b # bs) = (if a = b then diverge as bs else True)"
| "diverge as bs = False"

definition plainPath :: "string list \<Rightarrow> bool" where
  "plainPath p = list_all (\<lambda>k. \<not> inherited k) p"

fun objectsAlong :: "string list \<Rightarrow> jv \<Rightarrow> bool" where
  "objectsAlong [] t = True"
| "objectsAlong (k # ks) (JObj ps) =
     (case map_of ps k of None \<Rightarrow> True | Some c \<Rightarrow> objectsAlong ks c)"
| "objectsAlong (k # ks) t = False"

text \<open>A sequence of \<^verbatim>\<open>applyPatch\<close> calls, each with its clock reading, batch and source.\<close>

fun applyPatches :: "SchemaFields \<Rightarrow> (nat \<times> jv list \<times> Source) list \<Rightarrow> DuetStore \<Rightarrow> DuetStore" where
  "applyPatches flds [] st = st"
| "applyPatches flds (c # cs) st =
     applyPatches flds cs (snd (applyPatch flds (fst c) (fst (snd c)) (snd (snd c)) st))"

fun allReturn :: "SchemaFields \<Rightarrow> (nat \<times> jv list \<times> Source) list \<Rightarrow> DuetStore \<Rightarrow> bool" where
  "allReturn flds [] st = True"
| "allReturn flds (c # cs) st =
     (case fst (applyPatch flds (fst c) (fst (snd c)) (snd (snd c)) st) of
        Inl e \<Rightarrow> False
      | Inr res \<Rightarrow>
          allReturn flds cs (snd (applyPatch flds (fst c) (fst (snd c)) (snd (snd c)) st)))"

text \<open>
  Stand-ins for the runtime in closed examples: a \<^verbatim>\<open>JSON.parse\<close> that knows the texts
  of the example, and the message of an exception.
\<close>

definition parseTable :: "(string \<times> jv) list \<Rightarrow> string \<Rightarrow> string + jv" where
  "parseTable table json =
     (case map_of table json of
        None \<Rightarrow> Inl ''Unexpected token''
      | Some v \<Rightarrow> Inr v)"

definition faultMessage :: "fault \<Rightarrow> string" where
  "faultMessage e =
     (case e of
        TypeError \<Rightarrow> ''TypeError''
      | SyntaxError \<Rightarrow> ''SyntaxError''
      | RangeError \<Rightarrow> ''RangeError'')"

text \<open>The two wire formats of one batch, as \<^verbatim>\<open>applyJSON\<close> receives them.\<close>

definition bareText :: string where
  \<open>bareText = ''[{"op":"replace","path":"/days","value":10}]''\<close>

definition wrappedText :: string where
  \<open>wrappedText = ''{"patch":[{"op":"replace","path":"/days","value":10}]}''\<close>

definition exampleParse :: "string \<Rightarrow> string + jv" where
  "exampleParse =
     parseTable
       [(bareText, JArr [mkOp ''replace'' ''/days'' (JNum 10)]),
        (wrappedText, JObj [(''patch'', JArr [mkOp ''replace'' ''/days'' (JNum 10)])])]"

text \<open>
  For atomicity: the operations that delete in place, and the stores whose \<^verbatim>\<open>data\<close>
  refers to cells of the heap.
\<close>

definition isNestedRemove :: "jv \<Rightarrow> bool" where
  "isNestedRemove op =
     (case opPath op of
        Inl e \<Rightarrow> False
      | Inr path \<Rightarrow> opField op ''op'' = JStr ''remove'' \<and> snd (pathParts path) \<noteq> [])"

definition refsValid :: "DuetStore \<Rightarrow> bool" where
  "refsValid st = list_all (\<lambda>p. snd p < length (heap st)) (data st)"

section \<open>Properties\<close>

lemmas engine_defs =
  applyPatch_def applyOp_def opPath_def opField_def pathParts_def storeField_def
  fieldValue_def deref_def getDefaults_def validate_def setMany_def pushHistory_def
  cloneJSON_def lookup_prop_def createDuet_def current_def reset_def Let_def
  AList.delete_eq history_def inFields_def inherited_def inheritedNames_def
  inheritedValue_def readProp_def unwritten_def assignKey_def

lemmas example_defs =
  tripStore_def tripFields_def tripHeap_def accommodationSchema_def
  contactStore_def contactFields_def contactHeap_def mkOp_def mkRemove_def
  zNumber_def zString_def zEnum_def zOptional_def zObject_def
  parseTable_def faultMessage_def

subsection \<open>The schema\<close>

lemma getDefaults_lookup:
  "k \<noteq> ''__proto__'' \<Longrightarrow>
     map_of (getDefaults flds) k = map_option default_ref (map_of flds k)"
  by (induction flds) (auto simp: getDefaults_def)

lemma validate_registered:
  "map_of flds k = Some f \<Longrightarrow> validate flds k v = Inr (safeParse f v)"
  by (simp add: validate_def)

subsection \<open>The store\<close>

text \<open>A commit appends cells and leaves the log alone.\<close>

lemma heap_commit: "heap (commit vs st) = heap st @ map snd vs"
  by (induction vs arbitrary: st) simp_all

lemma commit_history:
  "patchHistory (commit vs st) = patchHistory st \<and> historyId (commit vs st) = historyId st"
  by (induction vs arbitrary: st) simp_all

lemma setMany_history:
  "setMany flds us st = Inr (b, st') \<Longrightarrow>
     patchHistory st' = patchHistory st \<and> historyId st' = historyId st"
  by (auto simp: setMany_def commit_history split: option.splits sum.splits)

text \<open>\<^verbatim>\<open>setMany\<close> changes the store only when it returns \<^verbatim>\<open>true\<close>.\<close>

lemma setMany_false_unchanged:
  "setMany flds us st = Inr (False, st') \<Longrightarrow> st' = st"
  by (auto simp: setMany_def split: option.splits sum.splits)

lemma current_heap_grows:
  "refsValid st \<Longrightarrow> current (st\<lparr>heap := heap st @ ext\<rparr>) = current st"
  by (auto simp: current_def refsValid_def deref_def list_all_iff nth_append)

lemma pushHistory_current: "current (pushHistory now ops src res st) = current st"
  by (simp add: pushHistory_def current_def)

subsection \<open>C1: a failing batch and the live snapshot\<close>

text \<open>
  C1 says that a batch with a failing operation leaves \<^verbatim>\<open>current()\<close> as it was. The
  working copy \<^verbatim>\<open>currentData\<close> is a shallow copy, and a nested \<^verbatim>\<open>remove\<close> deletes
  the key from the object the live snapshot holds. On the trip store, the batch
  \<^verbatim>\<open>[{op:'remove', path:'/accommodation/stars'}, {op:'replace', path:'/days', value:999}]\<close>
  is rejected for \<^verbatim>\<open>days\<close> (the maximum is 365), and \<^verbatim>\<open>stars\<close> is gone from the live
  \<^verbatim>\<open>accommodation\<close> all the same.
\<close>

theorem applyPatch_rejected_batch_changes_snapshot:
  "fst (applyPatch tripFields 0
          [mkRemove ''/accommodation/stars'', mkOp ''replace'' ''/days'' (JNum 999)]
          LLM tripStore)
     = Inr (Failure ''Invalid value for days: too_big'')
   \<and> current tripStore =
       [(''days'', JNum 7),
        (''accommodation'',
           JObj [(''type'', JStr ''hotel''), (''budgetPerNight'', JNum 150),
                 (''stars'', JNum 3)])]
   \<and> current (snd (applyPatch tripFields 0
          [mkRemove ''/accommodation/stars'', mkOp ''replace'' ''/days'' (JNum 999)]
          LLM tripStore)) =
       [(''days'', JNum 7),
        (''accommodation'',
           JObj [(''type'', JStr ''hotel''), (''budgetPerNight'', JNum 150)])]
   \<and> current (snd (applyPatch tripFields 0
          [mkRemove ''/accommodation/stars'', mkOp ''replace'' ''/days'' (JNum 999)]
          LLM tripStore)) \<noteq> current tripStore"
  by (simp add: engine_defs example_defs)

text \<open>
  The nested \<^verbatim>\<open>remove\<close> is the only branch that writes to a cell. Every other branch
  puts its result into a new cell, so a batch without a nested \<^verbatim>\<open>remove\<close> that does
  not succeed leaves the snapshot as it was.
\<close>

lemma applyOp_heap_grows:
  assumes "\<not> isNestedRemove op" and "applyOp flds op h cur = (h', e)"
  shows "\<exists>ext. h' = h @ ext"
  using assms
  by (auto simp: applyOp_def isNestedRemove_def Let_def
           split: sum.splits if_splits option.splits)

lemma patchLoop_heap_grows:
  "list_all (\<lambda>op. \<not> isNestedRemove op) ops \<Longrightarrow> patchLoop flds ops h cur = (h', e)
     \<Longrightarrow> \<exists>ext. h' = h @ ext"
proof (induction ops arbitrary: h cur)
  case Nil
  then show ?case by simp
next
  case (Cons op ops)
  obtain h1 e1 where a: "applyOp flds op h cur = (h1, e1)"
    by (cases "applyOp flds op h cur")
  from Cons.prems(1) have n: "\<not> isNestedRemove op"
    and rest: "list_all (\<lambda>op. \<not> isNestedRemove op) ops"
    by simp_all
  from applyOp_heap_grows[OF n a] obtain ext1 where h1: "h1 = h @ ext1" by blast
  show ?case
  proof (cases e1)
    case (Done cur1)
    with a Cons.prems(2) have "patchLoop flds ops h1 cur1 = (h', e)" by simp
    from Cons.IH[OF rest this] obtain ext2 where "h' = h1 @ ext2" by blast
    with h1 show ?thesis by simp
  next
    case (Thrown x)
    with a Cons.prems(2) h1 show ?thesis by auto
  next
    case (Rejected m)
    with a Cons.prems(2) h1 show ?thesis by auto
  qed
qed

lemma applyPatch_atomic_without_nested_remove:
  assumes "list_all (\<lambda>op. \<not> isNestedRemove op) ops"
    and "refsValid st"
    and "fst (applyPatch flds now ops src st) \<noteq> Inr (Success (length ops))"
  shows "current (snd (applyPatch flds now ops src st)) = current st"
proof -
  obtain h e where pl: "patchLoop flds ops (heap st) (data st) = (h, e)"
    by (cases "patchLoop flds ops (heap st) (data st)")
  from patchLoop_heap_grows[OF assms(1) pl] obtain ext where h: "h = heap st @ ext" by blast
  have c: "current (st\<lparr>heap := h\<rparr>) = current st"
    using current_heap_grows[OF assms(2)] h by simp
  show ?thesis
  proof (cases e)
    case (Thrown x)
    with pl c show ?thesis by (simp add: applyPatch_def)
  next
    case (Rejected m)
    with pl c show ?thesis by (simp add: applyPatch_def pushHistory_current)
  next
    case (Done cur)
    show ?thesis
    proof (cases "validateEntries flds (map (\<lambda>p. (fst p, deref h (snd p))) cur) []")
      case (Inl x)
      with pl Done c show ?thesis
        by (simp add: applyPatch_def setMany_def)
    next
      case (Inr r)
      show ?thesis
      proof (cases r)
        case None
        with Inr pl Done c show ?thesis
          by (simp add: applyPatch_def setMany_def pushHistory_current)
      next
        case (Some vs)
        with Inr pl Done assms(3) show ?thesis
          by (simp add: applyPatch_def setMany_def)
      qed
    qed
  qed
qed

subsection \<open>C2: exceptions that leave \<^verbatim>\<open>applyPatch\<close>\<close>

text \<open>
  C2 says that \<^verbatim>\<open>applyPatch\<close> returns an \<^verbatim>\<open>EditResult\<close> for every batch. The nested
  \<^verbatim>\<open>remove\<close> reads \<^verbatim>\<open>target[pathParts[i]]\<close> without a check: with the path
  \<^verbatim>\<open>/accommodation/a/b\<close> the target becomes \<^verbatim>\<open>undefined\<close> and \<^verbatim>\<open>delete\<close> throws a
  \<^verbatim>\<open>TypeError\<close>, which nothing in \<^verbatim>\<open>applyPatch\<close> catches. The nested \<^verbatim>\<open>replace\<close>
  throws in the same way on a field whose value is a number (\<^verbatim>\<open>'a' in 7\<close>).
\<close>

theorem applyPatch_throws_TypeError:
  "applyPatch tripFields 0 [mkRemove ''/accommodation/a/b''] LLM tripStore
     = (Inl TypeError, tripStore)
   \<and> applyPatch tripFields 0 [mkOp ''replace'' ''/days/a/b'' (JNum 1)] LLM tripStore
     = (Inl TypeError, tripStore)"
  by (simp add: engine_defs example_defs)

subsection \<open>C3: nested \<^verbatim>\<open>remove\<close> with an absent intermediate segment\<close>

text \<open>
  C3 says that a nested \<^verbatim>\<open>remove\<close> whose intermediate segment is absent is a no-op
  and that the batch continues. The default \<^verbatim>\<open>accommodation\<close> has no key \<^verbatim>\<open>a\<close>; the
  loop ends with the exception at the first operation and never reaches the second.
\<close>

theorem remove_absent_intermediate_throws:
  "fieldValue tripHeap (data tripStore) ''accommodation'' =
     JObj [(''type'', JStr ''hotel''), (''budgetPerNight'', JNum 150), (''stars'', JNum 3)]
   \<and> patchLoop tripFields
         [mkRemove ''/accommodation/a/b'', mkOp ''replace'' ''/days'' (JNum 10)]
         tripHeap (data tripStore)
     = (tripHeap, Thrown TypeError)"
  by (simp add: engine_defs example_defs)

text \<open>
  The same for every object that lacks the first nested segment, unless the object
  inherits that name.
\<close>

lemma removeAt_absent_intermediate:
  "map_of ps k = None \<Longrightarrow> \<not> inherited k \<Longrightarrow>
     removeAt (k # k' # ks) (JObj ps) = Inl TypeError"
  by (cases ks) (simp_all add: readProp_def inheritedValue_def)

text \<open>Only an absent final segment is tolerated.\<close>

lemma removeAt_absent_final:
  "map_of ps k = None \<Longrightarrow> removeAt [k] (JObj ps) = Inr (JObj ps)"
proof -
  assume "map_of ps k = None"
  then have "k \<notin> fst ` set ps" by (simp add: map_of_eq_None_iff)
  then have "AList.delete k ps = ps"
    by (induction ps) (auto simp: AList.delete_eq)
  then show ?thesis by simp
qed

subsection \<open>C4: \<^verbatim>\<open>setMany\<close>\<close>

text \<open>The loop, when no key of the updates meets the prototype.\<close>

lemma validateEntries_acc:
  "\<not> list_ex (prototypeKey flds) us \<Longrightarrow>
     validateEntries flds us acc =
       Inr (if list_ex (rejected_by flds) us then None else Some (acc @ accepted flds us))"
proof (induction us arbitrary: acc)
  case Nil
  show ?case by simp
next
  case (Cons u us)
  from Cons.prems have pu: "\<not> prototypeKey flds u"
    and rest: "\<not> list_ex (prototypeKey flds) us"
    by simp_all
  from pu have nu: "\<not> inheritedOnly flds u" and np: "fst u \<noteq> ''__proto__''"
    by (simp_all add: prototypeKey_def)
  note ih = Cons.IH[OF rest]
  show ?case
  proof (cases "map_of flds (fst u)")
    case None
    with nu have "\<not> inFields flds (fst u)" by (simp add: inheritedOnly_def inFields_def)
    with None ih show ?thesis by (simp add: rejected_by_def)
  next
    case (Some f)
    then have g: "inFields flds (fst u)" by (simp add: inFields_def)
    show ?thesis
    proof (cases "safeParse f (snd u)")
      case (Inl msg)
      with Some g show ?thesis by (simp add: rejected_by_def validate_def)
    next
      case (Inr d)
      with Some g ih np show ?thesis by (simp add: rejected_by_def validate_def)
    qed
  qed
qed

text \<open>
  With such a key the loop ends in the exception of \<^verbatim>\<open>validate\<close>, or earlier in
  \<^verbatim>\<open>return false\<close>: nothing is committed.
\<close>

lemma validateEntries_inherited_key:
  "list_ex (inheritedOnly flds) us \<Longrightarrow>
     validateEntries flds us acc = Inl TypeError \<or> validateEntries flds us acc = Inr None"
proof (induction us arbitrary: acc)
  case Nil
  then show ?case by simp
next
  case (Cons u us)
  show ?case
  proof (cases "inheritedOnly flds u")
    case True
    then show ?thesis by (simp add: inheritedOnly_def inFields_def validate_def)
  next
    case False
    with Cons.prems have "list_ex (inheritedOnly flds) us" by simp
    from Cons.IH[OF this] show ?thesis
      by (auto simp: validate_def split: option.splits sum.splits)
  qed
qed

lemma setMany_inherited_key:
  "list_ex (inheritedOnly flds) us \<Longrightarrow>
     setMany flds us st = Inl TypeError \<or> setMany flds us st = Inr (False, st)"
  using validateEntries_inherited_key[of flds us "[]"] by (auto simp: setMany_def)

lemma list_ex_rejected_filter:
  "list_ex (rejected_by flds) (filter (registered flds) us) = list_ex (rejected_by flds) us"
  by (induction us) (auto simp: rejected_by_def registered_def)

lemma list_ex_prototypeKey_filter:
  "\<not> list_ex (prototypeKey flds) us \<Longrightarrow>
     \<not> list_ex (prototypeKey flds) (filter (registered flds) us)"
  by (induction us) auto

lemma accepted_filter:
  "accepted flds (filter (registered flds) us) = accepted flds us"
  by (induction us) (auto simp: registered_def split: option.splits sum.splits)

text \<open>
  C4 as stated says that a key of \<^verbatim>\<open>updates\<close> which is not a registered field makes
  \<^verbatim>\<open>setMany\<close> fail. The loop guards the validation with \<^verbatim>\<open>if (key in schema.fields)\<close>:
  the key \<^verbatim>\<open>unknown\<close> is skipped, and the call succeeds and commits the other key.
\<close>

theorem setMany_unknown_key_counterexample:
  "map_of tripFields ''unknown'' = None
   \<and> setMany tripFields [(''unknown'', JNum 1), (''days'', JNum 10)] tripStore
       = Inr (True, commit [(''days'', JNum 10)] tripStore)
   \<and> current (commit [(''days'', JNum 10)] tripStore) =
       [(''days'', JNum 10),
        (''accommodation'',
           JObj [(''type'', JStr ''hotel''), (''budgetPerNight'', JNum 150),
                 (''stars'', JNum 3)])]"
  by (simp add: engine_defs example_defs)

text \<open>
  C4, amended: for updates none of whose keys is \<^verbatim>\<open>__proto__\<close> or an unregistered name
  that the fields object inherits from \<^verbatim>\<open>Object.prototype\<close> (such as \<^verbatim>\<open>constructor\<close>),
  \<^verbatim>\<open>setMany\<close> validates every key that is a registered field before it commits anything,
  and skips
  the keys that are not registered (they change neither the result nor the state). If
  the schema rejects the value of one registered key, the call returns \<^verbatim>\<open>false\<close> and
  the store is what it was; otherwise it returns \<^verbatim>\<open>true\<close> and commits the parsed values
  of the registered keys.
\<close>

theorem setMany_registered_all_or_nothing:
  assumes "\<not> list_ex (prototypeKey flds) updates"
  shows "setMany flds updates st =
           Inr (if list_ex (rejected_by flds) updates then (False, st)
                else (True, commit (accepted flds updates) st))
       \<and> setMany flds updates st = setMany flds (filter (registered flds) updates) st"
  using assms
  by (simp add: setMany_def validateEntries_acc list_ex_rejected_filter
        list_ex_prototypeKey_filter accepted_filter)

theorem setMany_registered_all_or_nothing_witness:
  "\<not> list_ex (prototypeKey tripFields)
        [(''unknown'', JNum 1), (''accommodation'', JNull), (''days'', JNum 999)]
   \<and> list_ex (rejected_by tripFields)
        [(''unknown'', JNum 1), (''accommodation'', JNull), (''days'', JNum 999)]
   \<and> setMany tripFields
        [(''unknown'', JNum 1), (''accommodation'', JNull), (''days'', JNum 999)] tripStore
       = Inr (False, tripStore)
   \<and> setMany tripFields [(''unknown'', JNum 1), (''days'', JNum 10)] tripStore
       = Inr (True, commit [(''days'', JNum 10)] tripStore)"
proof -
  have a: "\<not> list_ex (prototypeKey tripFields)
        [(''unknown'', JNum 1), (''accommodation'', JNull), (''days'', JNum 999)]"
    by (simp add: prototypeKey_def inheritedOnly_def inherited_def inheritedNames_def)
  have b: "\<not> list_ex (prototypeKey tripFields) [(''unknown'', JNum 1), (''days'', JNum 10)]"
    by (simp add: prototypeKey_def inheritedOnly_def inherited_def inheritedNames_def)
  show ?thesis
    using a
      setMany_registered_all_or_nothing[OF a, of tripStore]
      setMany_registered_all_or_nothing[OF b, of tripStore]
    by (simp add: rejected_by_def tripFields_def zNumber_def accommodationSchema_def zObject_def)
qed

text \<open>
  The case the amended claim leaves out: the key \<^verbatim>\<open>constructor\<close> passes the guard, and
  \<^verbatim>\<open>schema.validate\<close> throws.
\<close>

lemma setMany_constructor_throws:
  "setMany tripFields [(''constructor'', JNum 1), (''days'', JNum 10)] tripStore = Inl TypeError"
  by (simp add: engine_defs example_defs)

subsection \<open>C5: \<^verbatim>\<open>reset\<close> after a nested \<^verbatim>\<open>remove\<close>\<close>

text \<open>
  C5 says that \<^verbatim>\<open>reset()\<close> brings every field back to its value after construction.
  \<^verbatim>\<open>initialData\<close> and every later \<^verbatim>\<open>getDefaults()\<close> hold the \<^verbatim>\<open>default\<close> object of the
  field itself. On the new trip store the batch
  \<^verbatim>\<open>[{op:'remove', path:'/accommodation/stars'}]\<close> succeeds and deletes \<^verbatim>\<open>stars\<close> from
  that object, so \<^verbatim>\<open>reset()\<close> restores an \<^verbatim>\<open>accommodation\<close> without \<^verbatim>\<open>stars\<close>.
\<close>

theorem reset_after_nested_remove_differs:
  "fst (applyPatch tripFields 0 [mkRemove ''/accommodation/stars''] LLM tripStore)
     = Inr (Success 1)
   \<and> current tripStore =
       [(''days'', JNum 7),
        (''accommodation'',
           JObj [(''type'', JStr ''hotel''), (''budgetPerNight'', JNum 150),
                 (''stars'', JNum 3)])]
   \<and> current (reset tripFields
        (snd (applyPatch tripFields 0 [mkRemove ''/accommodation/stars''] LLM tripStore))) =
       [(''days'', JNum 7),
        (''accommodation'',
           JObj [(''type'', JStr ''hotel''), (''budgetPerNight'', JNum 150)])]
   \<and> current (reset tripFields
        (snd (applyPatch tripFields 0 [mkRemove ''/accommodation/stars''] LLM tripStore)))
       \<noteq> current tripStore"
  by (simp add: engine_defs example_defs)

text \<open>After \<^verbatim>\<open>setMany\<close>, which writes no cell, \<^verbatim>\<open>reset\<close> does restore the defaults.\<close>

lemma reset_after_setMany:
  assumes "list_all (\<lambda>p. default_ref (snd p) < length (heap st)) flds"
    and "setMany flds us st = Inr (b, st')"
  shows "current (reset flds st') = current (reset flds st)"
proof -
  have "\<And>ext. current (reset flds (st\<lparr>heap := heap st @ ext\<rparr>)) = current (reset flds st)"
    using assms
    by (auto simp: current_def reset_def getDefaults_def deref_def list_all_iff nth_append)
  moreover have "\<And>vs. reset flds (commit vs st) = reset flds (st\<lparr>heap := heap st @ map snd vs\<rparr>)"
  proof -
    fix vs
    show "reset flds (commit vs st) = reset flds (st\<lparr>heap := heap st @ map snd vs\<rparr>)"
      using heap_commit[of vs st] commit_history[of vs st]
      by (simp add: reset_def)
  qed
  ultimately show ?thesis
    using assms(2) by (auto simp: setMany_def split: sum.splits option.splits)
qed

subsection \<open>C6: nested \<^verbatim>\<open>replace\<close> and \<^verbatim>\<open>add\<close>\<close>

lemma lookup_prop_update:
  "lookup_prop (AList.update k v ps) k' = (if k' = k then v else lookup_prop ps k')"
  by (simp add: lookup_prop_def update_conv')

lemma lookup_prop_Nil: "lookup_prop [] k = JUndef"
  by (simp add: lookup_prop_def)

lemma lookupPath_JUndef: "lookupPath ks JUndef = JUndef"
  by (cases ks) simp_all

lemma objectsAlong_is_object:
  "objectsAlong (k # ks) t \<Longrightarrow> \<exists>ps. t = JObj ps"
  by (cases t) simp_all

text \<open>On a name that is not inherited, an object is its own properties.\<close>

lemma plain_hasProp: "\<not> inherited k \<Longrightarrow> hasProp k (JObj ps) = Inr (map_of ps k \<noteq> None)"
  by simp

lemma own_getProp: "map_of ps k = Some c \<Longrightarrow> getProp (JObj ps) k = Inr c"
  by (simp add: readProp_def)

lemma plain_assignKey: "\<not> inherited k \<Longrightarrow> assignKey k v al = AList.update k v al"
  by (auto simp: assignKey_def inherited_def inheritedNames_def)

lemma plain_setProp:
  "\<not> inherited k \<Longrightarrow> setProp (JObj ps) k v = Inr (JObj (AList.update k v ps))"
  by (simp add: plain_assignKey)

lemma plain_putChild:
  "\<not> inherited k \<Longrightarrow> putChild (JObj ps) k c = JObj (AList.update k c ps)"
  by simp

lemma plainPath_Cons: "plainPath (k # p) = (\<not> inherited k \<and> plainPath p)"
  by (simp add: plainPath_def)

text \<open>
  The walk of \<^verbatim>\<open>replace\<close>/\<^verbatim>\<open>add\<close> on an object, one step: the child under the first
  segment, the one that is there or a new empty object, takes the rest of the walk and
  is put back.
\<close>

lemma assignAt_step:
  assumes "\<not> inherited k" and "p \<noteq> []"
  shows "assignAt (k # p) v (JObj ps) =
           (case assignAt p v (case map_of ps k of None \<Rightarrow> JObj [] | Some c \<Rightarrow> c) of
              Inl e \<Rightarrow> Inl e
            | Inr c' \<Rightarrow> Inr (JObj (AList.update k c' ps)))"
proof -
  obtain k' ks where p: "p = k' # ks" using assms(2) by (cases p) auto
  show ?thesis
    using assms(1)
    by (cases "map_of ps k") (simp_all add: p readProp_def split: sum.splits)
qed

text \<open>On a path that leads through objects the walk does not throw.\<close>

lemma assignAt_objects:
  "objectsAlong p (JObj ps) \<Longrightarrow> plainPath p \<Longrightarrow> p \<noteq> [] \<Longrightarrow>
     \<exists>qs. assignAt p v (JObj ps) = Inr (JObj qs)"
proof (induction p arbitrary: ps)
  case Nil
  then show ?case by simp
next
  case (Cons k p)
  from Cons.prems(2) have nk: "\<not> inherited k" and pp: "plainPath p"
    by (simp_all add: plainPath_Cons)
  show ?case
  proof (cases "p = []")
    case True
    then show ?thesis using plain_setProp[OF nk, of ps v] by (simp del: setProp.simps)
  next
    case False
    obtain cs where c: "(case map_of ps k of None \<Rightarrow> JObj [] | Some c \<Rightarrow> c) = JObj cs"
      and oc: "objectsAlong p (JObj cs)"
    proof (cases "map_of ps k")
      case None
      moreover have "objectsAlong p (JObj [])" using False by (cases p) simp_all
      ultimately show ?thesis using that by simp
    next
      case (Some c)
      then have "objectsAlong p c" using Cons.prems(1) by simp
      moreover from this False obtain cs where "c = JObj cs"
        using objectsAlong_is_object by (cases p) blast+
      ultimately show ?thesis using that Some by simp
    qed
    from Cons.IH[OF oc pp False] obtain qs where "assignAt p v (JObj cs) = Inr (JObj qs)"
      by blast
    then show ?thesis using assignAt_step[OF nk False, of v ps] c by simp
  qed
qed

text \<open>The final segment holds the value afterwards.\<close>

lemma assignAt_lookup:
  "objectsAlong p (JObj ps) \<Longrightarrow> plainPath p \<Longrightarrow> p \<noteq> [] \<Longrightarrow>
     assignAt p v (JObj ps) = Inr t' \<Longrightarrow> lookupPath p t' = v"
proof (induction p arbitrary: ps t')
  case Nil
  then show ?case by simp
next
  case (Cons k p)
  from Cons.prems(2) have nk: "\<not> inherited k" and pp: "plainPath p"
    by (simp_all add: plainPath_Cons)
  show ?case
  proof (cases "p = []")
    case True
    have "t' = JObj (AList.update k v ps)"
      using Cons.prems(4) True plain_setProp[OF nk, of ps v] by (simp del: setProp.simps)
    then show ?thesis using True by (simp add: lookup_prop_update)
  next
    case False
    obtain cs where c: "(case map_of ps k of None \<Rightarrow> JObj [] | Some c \<Rightarrow> c) = JObj cs"
      and oc: "objectsAlong p (JObj cs)"
    proof (cases "map_of ps k")
      case None
      moreover have "objectsAlong p (JObj [])" using False by (cases p) simp_all
      ultimately show ?thesis using that by simp
    next
      case (Some c)
      then have "objectsAlong p c" using Cons.prems(1) by simp
      moreover from this False obtain cs where "c = JObj cs"
        using objectsAlong_is_object by (cases p) blast+
      ultimately show ?thesis using that Some by simp
    qed
    from assignAt_objects[OF oc pp False] obtain qs where a: "assignAt p v (JObj cs) = Inr (JObj qs)"
      by blast
    from Cons.IH[OF oc pp False a] have "lookupPath p (JObj qs) = v" .
    moreover have "t' = JObj (AList.update k (JObj qs) ps)"
      using assignAt_step[OF nk False, of v ps] c a Cons.prems(4) by simp
    ultimately show ?thesis by (simp add: lookup_prop_update)
  qed
qed

text \<open>Every path that leaves the written path at some segment keeps its value.\<close>

lemma assignAt_siblings:
  "objectsAlong p (JObj ps) \<Longrightarrow> plainPath p \<Longrightarrow> p \<noteq> [] \<Longrightarrow>
     assignAt p v (JObj ps) = Inr t' \<Longrightarrow> diverge p q \<Longrightarrow>
     lookupPath q t' = lookupPath q (JObj ps)"
proof (induction p arbitrary: ps t' q)
  case Nil
  then show ?case by simp
next
  case (Cons k p)
  from Cons.prems(2) have nk: "\<not> inherited k" and pp: "plainPath p"
    by (simp_all add: plainPath_Cons)
  from Cons.prems(5) obtain k2 q' where q: "q = k2 # q'" by (cases q) auto
  show ?case
  proof (cases "p = []")
    case True
    then have "k2 \<noteq> k" using Cons.prems(5) q by (auto split: if_splits)
    moreover have "t' = JObj (AList.update k v ps)"
      using Cons.prems(4) True plain_setProp[OF nk, of ps v] by (simp del: setProp.simps)
    ultimately show ?thesis using q by (simp add: lookup_prop_update)
  next
    case False
    obtain cs where c: "(case map_of ps k of None \<Rightarrow> JObj [] | Some c \<Rightarrow> c) = JObj cs"
      and oc: "objectsAlong p (JObj cs)"
    proof (cases "map_of ps k")
      case None
      moreover have "objectsAlong p (JObj [])" using False by (cases p) simp_all
      ultimately show ?thesis using that by simp
    next
      case (Some c)
      then have "objectsAlong p c" using Cons.prems(1) by simp
      moreover from this False obtain cs where "c = JObj cs"
        using objectsAlong_is_object by (cases p) blast+
      ultimately show ?thesis using that Some by simp
    qed
    from assignAt_objects[OF oc pp False] obtain qs where a: "assignAt p v (JObj cs) = Inr (JObj qs)"
      by blast
    have t': "t' = JObj (AList.update k (JObj qs) ps)"
      using assignAt_step[OF nk False, of v ps] c a Cons.prems(4) by simp
    show ?thesis
    proof (cases "k2 = k")
      case True
      then have d: "diverge p q'" using Cons.prems(5) q by simp
      from Cons.IH[OF oc pp False a d]
      have ih: "lookupPath q' (JObj qs) = lookupPath q' (JObj cs)" .
      from d obtain k3 q'' where q': "q' = k3 # q''" by (cases p; cases q') auto
      have "lookupPath q' (lookup_prop ps k) = lookupPath q' (JObj cs)"
      proof (cases "map_of ps k")
        case None
        then have "lookup_prop ps k = JUndef" and "cs = []"
          using c by (simp_all add: lookup_prop_def)
        then show ?thesis
          by (simp add: q' lookupPath_JUndef lookup_prop_Nil)
      next
        case (Some c0)
        then show ?thesis using c by (simp add: lookup_prop_def)
      qed
      with ih show ?thesis using t' q True by (simp add: lookup_prop_update)
    next
      case False
      then show ?thesis using t' q by (simp add: lookup_prop_update)
    qed
  qed
qed

text \<open>
  What the nested branch does when the candidate value of the root field is an object,
  no segment of the nested path is an inherited name, and every segment on the way
  that is present holds an object: the clone gets the value at the path, missing
  segments are created, every path beside it keeps its value, and the field's schema
  decides on the whole new value. The live cell is not touched: the heap only grows by
  the parsed value.
\<close>

lemma nested_assign_on_objects:
  assumes "opPath op = Inr path"
    and "pathParts path = (rootField, nested)"
    and "nested \<noteq> []"
    and "plainPath nested"
    and "map_of flds rootField = Some f"
    and "opField op ''op'' = JStr ''replace'' \<or> opField op ''op'' = JStr ''add''"
    and "fieldValue h currentData rootField = JObj ps"
    and "objectsAlong nested (JObj (roundtrip_props ps))"
  shows "\<exists>newValue.
           assignAt nested (opField op ''value'') (JObj (roundtrip_props ps)) = Inr newValue
         \<and> lookupPath nested newValue = opField op ''value''
         \<and> (\<forall>q. diverge nested q \<longrightarrow>
                lookupPath q newValue = lookupPath q (JObj (roundtrip_props ps)))
         \<and> applyOp flds op h currentData =
             (case safeParse f newValue of
                Inl msg \<Rightarrow> (h, Rejected (''Invalid value for '' @ path @ '': '' @ msg))
              | Inr d \<Rightarrow> (h @ [d], Done (assignKey rootField (length h) currentData)))"
proof -
  let ?c = "JObj (roundtrip_props ps)"
  let ?v = "opField op ''value''"
  obtain qs where a: "assignAt nested ?v ?c = Inr (JObj qs)"
    using assignAt_objects[OF assms(8) assms(4) assms(3)] by blast
  have l: "lookupPath nested (JObj qs) = ?v"
    using assignAt_lookup[OF assms(8) assms(4) assms(3) a] .
  have s: "\<forall>q. diverge nested q \<longrightarrow> lookupPath q (JObj qs) = lookupPath q ?c"
    using assignAt_siblings[OF assms(8) assms(4) assms(3) a] by blast
  have "opField op ''op'' \<noteq> JStr ''remove''" using assms(6) by auto
  then have "applyOp flds op h currentData =
      (case safeParse f (JObj qs) of
         Inl msg \<Rightarrow> (h, Rejected (''Invalid value for '' @ path @ '': '' @ msg))
       | Inr d \<Rightarrow> (h @ [d], Done (assignKey rootField (length h) currentData)))"
    using assms(1-3,5-7) a
    by (auto simp: applyOp_def Let_def cloneJSON_def validate_def inFields_def unwritten_def
             split: sum.splits)
  with a l s show ?thesis by blast
qed

text \<open>The example of the specification: \<^verbatim>\<open>/contact/name\<close> on the new contact store.\<close>

lemma nested_replace_contact_name:
  "fst (applyPatch contactFields 0
          [mkOp ''replace'' ''/contact/name'' (JStr ''John'')] LLM contactStore)
     = Inr (Success 1)
   \<and> current (snd (applyPatch contactFields 0
          [mkOp ''replace'' ''/contact/name'' (JStr ''John'')] LLM contactStore)) =
       [(''contact'',
           JObj [(''name'', JStr ''John''), (''email'', JStr []), (''phone'', JStr [])])]"
  by (simp add: engine_defs example_defs)

text \<open>
  C6 says this of every \<^verbatim>\<open>replace\<close> or \<^verbatim>\<open>add\<close> with a nested path on a registered
  field. Where the walk meets a value that is not an object, the value is never
  validated and the batch does not fail with a result: the \<^verbatim>\<open>in\<close> operator throws.
  The field \<^verbatim>\<open>days\<close> holds the number 7, and \<^verbatim>\<open>accommodation.type\<close> a string.
\<close>

theorem nested_replace_throws_off_objects:
  "fieldValue tripHeap (data tripStore) ''days'' = JNum 7
   \<and> applyOp tripFields (mkOp ''replace'' ''/days/a/b'' (JNum 1)) tripHeap (data tripStore)
       = (tripHeap, Thrown TypeError)
   \<and> applyOp tripFields (mkOp ''add'' ''/accommodation/type/x/y'' (JNum 1)) tripHeap (data tripStore)
       = (tripHeap, Thrown TypeError)
   \<and> fst (applyPatch tripFields 0 [mkOp ''add'' ''/accommodation/type/x/y'' (JNum 1)] LLM tripStore)
       = Inl TypeError"
  by (simp add: engine_defs example_defs)

subsection \<open>C7: the audit log\<close>

text \<open>A call that returns a result appends one entry, with the next id.\<close>

lemma applyPatch_appends_one_entry:
  assumes "fst (applyPatch flds now ops src st) = Inr res"
  shows "history (snd (applyPatch flds now ops src st)) =
           history st @
             [\<lparr>id_str = string_of_nat (historyId st + 1), timestamp = now,
               patch = ops, source = src, result = res\<rparr>]
         \<and> historyId (snd (applyPatch flds now ops src st)) = historyId st + 1"
proof -
  obtain h e where pl: "patchLoop flds ops (heap st) (data st) = (h, e)"
    by (cases "patchLoop flds ops (heap st) (data st)")
  show ?thesis
  proof (cases e)
    case (Thrown x)
    with pl assms show ?thesis by (simp add: applyPatch_def)
  next
    case (Rejected msg)
    with pl assms show ?thesis by (auto simp: applyPatch_def pushHistory_def history_def)
  next
    case (Done cur)
    show ?thesis
    proof (cases "setMany flds (map (\<lambda>p. (fst p, deref h (snd p))) cur) (st\<lparr>heap := h\<rparr>)")
      case (Inl x)
      with pl Done assms show ?thesis by (simp add: applyPatch_def)
    next
      case (Inr r)
      obtain b st' where r: "r = (b, st')" by (cases r)
      have "patchHistory st' = patchHistory st \<and> historyId st' = historyId st"
        using setMany_history[of flds _ "st\<lparr>heap := h\<rparr>" b st'] Inr r by simp
      with pl Done Inr r assms show ?thesis
        by (cases b) (auto simp: applyPatch_def pushHistory_def history_def)
    qed
  qed
qed

text \<open>A call that throws appends nothing and leaves the counter.\<close>

lemma applyPatch_throw_appends_nothing:
  assumes "fst (applyPatch flds now ops src st) = Inl e"
  shows "history (snd (applyPatch flds now ops src st)) = history st
         \<and> historyId (snd (applyPatch flds now ops src st)) = historyId st"
  using assms
  by (auto simp: applyPatch_def history_def
           split: prod.splits loop_end.splits bool.splits sum.splits)

lemma clearHistory_resets:
  "history (clearHistory st) = [] \<and> historyId (clearHistory st) = 0
   \<and> heap (clearHistory st) = heap st \<and> data (clearHistory st) = data st"
  by (simp add: clearHistory_def history_def)

text \<open>
  After calls that all return, the log has one more entry per call, in call order,
  and the ids count on from the counter.
\<close>

lemma history_after_calls:
  "allReturn flds calls st \<Longrightarrow>
     map id_str (history (applyPatches flds calls st)) =
       map id_str (history st) @
       map (\<lambda>i. string_of_nat (historyId st + 1 + i)) [0 ..< length calls]
   \<and> map patch (history (applyPatches flds calls st)) =
       map patch (history st) @ map (\<lambda>c. fst (snd c)) calls
   \<and> map source (history (applyPatches flds calls st)) =
       map source (history st) @ map (\<lambda>c. snd (snd c)) calls
   \<and> historyId (applyPatches flds calls st) = historyId st + length calls"
proof (induction calls arbitrary: st)
  case Nil
  show ?case by simp
next
  case (Cons c cs)
  let ?r = "applyPatch flds (fst c) (fst (snd c)) (snd (snd c)) st"
  from Cons.prems obtain res where r: "fst ?r = Inr res" and rest: "allReturn flds cs (snd ?r)"
    by (auto split: sum.splits)
  note one = applyPatch_appends_one_entry[OF r]
  note ih = Cons.IH[OF rest]
  show ?case using one ih by (simp add: map_upt_Suc del: upt_Suc)
qed

text \<open>The ids are decimal numerals: reading one back gives the number.\<close>

lemma nat_of_digits_snoc:
  "nat_of_digits (s @ [c]) = 10 * nat_of_digits s + ((of_char c :: nat) - 48)"
  by (simp add: nat_of_digits_def)

lemma of_char_digit_char: "d < 10 \<Longrightarrow> (of_char (digit_char d) :: nat) = 48 + d"
proof -
  assume "d < 10"
  then have "d = 0 \<or> d = 1 \<or> d = 2 \<or> d = 3 \<or> d = 4 \<or> d = 5 \<or> d = 6 \<or> d = 7
      \<or> d = 8 \<or> d = 9"
    by arith
  then show ?thesis by (auto simp: digit_char_def)
qed

lemma nat_of_digits_string_of_nat: "nat_of_digits (string_of_nat n) = n"
proof (induction n rule: string_of_nat.induct)
  case (1 n)
  show ?case
  proof (cases "n < 10")
    case True
    then show ?thesis
      using nat_of_digits_snoc[of "[]" "digit_char n"]
      by (simp add: string_of_nat.simps[of n] of_char_digit_char nat_of_digits_def)
  next
    case False
    then have "nat_of_digits (string_of_nat (n div 10)) = n div 10" using 1 by simp
    then show ?thesis using False
      by (simp add: string_of_nat.simps[of n] nat_of_digits_snoc of_char_digit_char)
  qed
qed

text \<open>
  C7 says that every call of \<^verbatim>\<open>applyPatch\<close> appends one entry, so that \<open>N\<close> calls
  leave \<open>N\<close> entries. The entry is pushed before each \<^verbatim>\<open>return\<close>; a call that ends
  with an exception pushes none. Three calls on the new trip store, the second with
  \<^verbatim>\<open>[{op:'remove', path:'/accommodation/a/b'}]\<close>, leave two entries.
\<close>

theorem history_misses_throwing_call:
  "map id_str (history (applyPatches tripFields
      [(1, [mkOp ''replace'' ''/days'' (JNum 10)], User),
       (2, [mkRemove ''/accommodation/a/b''], LLM),
       (3, [mkOp ''replace'' ''/days'' (JNum 999)], System)] tripStore)) = [''1'', ''2'']
   \<and> map source (history (applyPatches tripFields
      [(1, [mkOp ''replace'' ''/days'' (JNum 10)], User),
       (2, [mkRemove ''/accommodation/a/b''], LLM),
       (3, [mkOp ''replace'' ''/days'' (JNum 999)], System)] tripStore)) = [User, System]"
  by (simp add: engine_defs example_defs string_of_nat.simps digit_char_def)

subsection \<open>C8: malformed input of \<^verbatim>\<open>applyJSON\<close>\<close>

lemma applyJSON_not_json:
  "JSON_parse json = Inl m \<Longrightarrow>
     applyJSON JSON_parse message flds now json src st =
       (Failure (''JSON parse error: '' @ m), st)"
  by (simp add: applyJSON_def)

lemma applyJSON_other_shape:
  assumes "JSON_parse json = Inr parsed"
    and "parsed \<noteq> JNull" and "parsed \<noteq> JUndef"
    and "\<nexists>ops. parsed = JArr ops"
    and "\<And>v. getProp parsed ''patch'' = Inr v \<Longrightarrow> \<nexists>ops. v = JArr ops"
  shows "applyJSON JSON_parse message flds now json src st =
           (Failure ''Expected JSON Patch array or { patch: [...] } format'', st)"
proof -
  obtain v where g: "getProp parsed ''patch'' = Inr v"
    using assms(2,3) by (cases parsed) auto
  with assms(5) have nv: "\<nexists>ops. v = JArr ops" by blast
  show ?thesis using assms(1,4) g nv
    by (cases parsed; cases v) (auto simp: applyJSON_def)
qed

lemma applyJSON_null:
  "JSON_parse json = Inr JNull \<Longrightarrow>
     applyJSON JSON_parse message flds now json src st =
       (Failure (''JSON parse error: '' @ message TypeError), st)"
  by (simp add: applyJSON_def)

text \<open>
  C8 says that valid JSON of another shape gets the message
  \<^verbatim>\<open>Expected JSON Patch array or { patch: [...] } format\<close>. The text \<^verbatim>\<open>null\<close> is valid
  JSON; \<^verbatim>\<open>parsed.patch\<close> throws on it, and the \<^verbatim>\<open>catch\<close> clause reports
  \<^verbatim>\<open>JSON parse error: ...\<close>. The store is unchanged and nothing is logged, as the claim
  says.
\<close>

theorem applyJSON_null_reports_parse_error:
  "parseTable [(''null'', JNull)] ''null'' = Inr JNull
   \<and> applyJSON (parseTable [(''null'', JNull)]) faultMessage tripFields 0 ''null'' LLM tripStore
       = (Failure ''JSON parse error: TypeError'', tripStore)
   \<and> applyJSON (parseTable [(''null'', JNull)]) faultMessage tripFields 0 ''null'' LLM tripStore
       \<noteq> (Failure ''Expected JSON Patch array or { patch: [...] } format'', tripStore)"
  by (simp add: applyJSON_def parseTable_def faultMessage_def)

subsection \<open>C9: the two input formats\<close>

text \<open>
  C9: when the bare text parses to the array of operations and the wrapped text to
  an object whose \<^verbatim>\<open>patch\<close> property is that array, \<^verbatim>\<open>applyJSON\<close> returns the same
  result for both and leaves the same store and the same log.
\<close>

theorem applyJSON_wrapped_equals_bare:
  assumes "JSON_parse bare = Inr (JArr ops)"
    and "JSON_parse wrapped = Inr (JObj [(''patch'', JArr ops)])"
  shows "applyJSON JSON_parse message flds now bare src st =
         applyJSON JSON_parse message flds now wrapped src st"
  using assms by (simp add: applyJSON_def readProp_def)

theorem applyJSON_wrapped_equals_bare_witness:
  "exampleParse bareText = Inr (JArr [mkOp ''replace'' ''/days'' (JNum 10)])
   \<and> exampleParse wrappedText =
       Inr (JObj [(''patch'', JArr [mkOp ''replace'' ''/days'' (JNum 10)])])
   \<and> applyJSON exampleParse faultMessage tripFields 0 bareText User tripStore =
       applyJSON exampleParse faultMessage tripFields 0 wrappedText User tripStore"
proof -
  have b: "exampleParse bareText = Inr (JArr [mkOp ''replace'' ''/days'' (JNum 10)])"
    by (simp add: exampleParse_def parseTable_def)
  have w: "exampleParse wrappedText =
       Inr (JObj [(''patch'', JArr [mkOp ''replace'' ''/days'' (JNum 10)])])"
    by (simp add: exampleParse_def parseTable_def bareText_def wrappedText_def)
  show ?thesis
    using b w applyJSON_wrapped_equals_bare
            [OF b w, of faultMessage tripFields 0 User tripStore]
    by simp
qed

subsection \<open>C10: operations of another kind\<close>

lemma patchLoop_append:
  "patchLoop flds (xs @ ys) h cur =
     (case patchLoop flds xs h cur of
        (h', Done cur') \<Rightarrow> patchLoop flds ys h' cur'
      | (h', Thrown e) \<Rightarrow> (h', Thrown e)
      | (h', Rejected msg) \<Rightarrow> (h', Rejected msg))"
  by (induction xs arbitrary: h cur) (auto split: prod.splits loop_end.splits)

lemma applyOp_other_kind:
  assumes "opPath op = Inr path"
    and "map_of flds (fst (pathParts path)) \<noteq> None"
    and "opField op ''op'' \<noteq> JStr ''remove''"
    and "opField op ''op'' \<noteq> JStr ''replace''"
    and "opField op ''op'' \<noteq> JStr ''add''"
  shows "applyOp flds op h cur = (h, Done cur)"
  using assms by (simp add: applyOp_def Let_def inFields_def)

text \<open>A successful call reports the length of the batch.\<close>

lemma applyPatch_applied_length:
  "fst (applyPatch flds now ops src st) = Inr (Success n) \<Longrightarrow> n = length ops"
  by (auto simp: applyPatch_def split: prod.splits loop_end.splits bool.splits sum.splits)

text \<open>
  C10: an operation whose path is a string with a registered root field and whose
  \<^verbatim>\<open>op\<close> is none of \<^verbatim>\<open>remove\<close>, \<^verbatim>\<open>replace\<close>, \<^verbatim>\<open>add\<close> falls through the loop body: the
  heap and the working copy stay as they are and the loop goes on. A batch with such an
  operation ends like the batch without it and leaves the same heap and data; when it
  succeeds, the applied count is the length of the whole batch, the skipped operation
  included.
\<close>

theorem other_op_kind_skipped_and_counted:
  assumes "opPath op = Inr path"
    and "map_of flds (fst (pathParts path)) \<noteq> None"
    and "opField op ''op'' \<noteq> JStr ''remove''"
    and "opField op ''op'' \<noteq> JStr ''replace''"
    and "opField op ''op'' \<noteq> JStr ''add''"
  shows "applyOp flds op h currentData = (h, Done currentData)
       \<and> patchLoop flds (before @ op # after) h currentData =
           patchLoop flds (before @ after) h currentData
       \<and> fst (applyPatch flds now (before @ op # after) src st) =
           (case fst (applyPatch flds now (before @ after) src st) of
              Inr (Success n) \<Rightarrow> Inr (Success (length before + 1 + length after))
            | r \<Rightarrow> r)
       \<and> heap (snd (applyPatch flds now (before @ op # after) src st)) =
           heap (snd (applyPatch flds now (before @ after) src st))
       \<and> data (snd (applyPatch flds now (before @ op # after) src st)) =
           data (snd (applyPatch flds now (before @ after) src st))"
proof -
  have skip: "\<And>h c. applyOp flds op h c = (h, Done c)"
    using applyOp_other_kind[OF assms] .
  have loop: "\<And>h c. patchLoop flds (before @ op # after) h c = patchLoop flds (before @ after) h c"
    by (simp add: patchLoop_append skip split: prod.splits loop_end.splits)
  obtain h' e where pl: "patchLoop flds (before @ after) (heap st) (data st) = (h', e)"
    by (cases "patchLoop flds (before @ after) (heap st) (data st)")
  have res: "fst (applyPatch flds now (before @ op # after) src st) =
           (case fst (applyPatch flds now (before @ after) src st) of
              Inr (Success n) \<Rightarrow> Inr (Success (length before + 1 + length after))
            | r \<Rightarrow> r)"
    using pl
    by (cases e) (auto simp: applyPatch_def loop split: prod.splits bool.splits sum.splits)
  have hp: "heap (snd (applyPatch flds now (before @ op # after) src st)) =
           heap (snd (applyPatch flds now (before @ after) src st))"
    using pl
    by (cases e)
       (auto simp: applyPatch_def loop pushHistory_def split: prod.splits bool.splits sum.splits)
  have dt: "data (snd (applyPatch flds now (before @ op # after) src st)) =
           data (snd (applyPatch flds now (before @ after) src st))"
    using pl
    by (cases e)
       (auto simp: applyPatch_def loop pushHistory_def split: prod.splits bool.splits sum.splits)
  show ?thesis using skip loop res hp dt by simp
qed

theorem other_op_kind_skipped_and_counted_witness:
  "opPath (mkOp ''move'' ''/days'' JUndef) = Inr ''/days''
   \<and> map_of tripFields (fst (pathParts ''/days'')) \<noteq> None
   \<and> applyOp tripFields (mkOp ''move'' ''/days'' JUndef) tripHeap (data tripStore)
       = (tripHeap, Done (data tripStore))
   \<and> fst (applyPatch tripFields 0
            [mkOp ''replace'' ''/days'' (JNum 10), mkOp ''move'' ''/days'' JUndef] LLM tripStore)
       = Inr (Success 2)"
proof -
  have p: "opPath (mkOp ''move'' ''/days'' JUndef) = Inr ''/days''"
    by (simp add: opPath_def mkOp_def readProp_def)
  have r: "map_of tripFields (fst (pathParts ''/days'')) \<noteq> None"
    by (simp add: tripFields_def pathParts_def)
  have k1: "opField (mkOp ''move'' ''/days'' JUndef) ''op'' \<noteq> JStr ''remove''"
    by (simp add: opField_def mkOp_def readProp_def)
  have k2: "opField (mkOp ''move'' ''/days'' JUndef) ''op'' \<noteq> JStr ''replace''"
    by (simp add: opField_def mkOp_def readProp_def)
  have k3: "opField (mkOp ''move'' ''/days'' JUndef) ''op'' \<noteq> JStr ''add''"
    by (simp add: opField_def mkOp_def readProp_def)
  have one: "fst (applyPatch tripFields 0 [mkOp ''replace'' ''/days'' (JNum 10)] LLM tripStore)
       = Inr (Success 1)"
    by (simp add: engine_defs example_defs)
  show ?thesis
    using p r one
      other_op_kind_skipped_and_counted
        [OF p r k1 k2 k3, of tripHeap "data tripStore"
           "[mkOp ''replace'' ''/days'' (JNum 10)]" "[]" 0 LLM tripStore]
    by simp
qed

end
